theory Spec2Isabelle
  imports Main
begin

section \<open>The port-memoized SSH connection workflow of \<open>index.js\<close>\<close>

text \<open>
  The development embeds the functions \<open>loadPortConfigs\<close>, \<open>savePortConfig\<close> and
  \<open>sshIntoServer\<close> (with its inner closures \<open>trySSHConnection\<close>, \<open>promptForPort\<close> and the
  anonymous asynchronous retry flow) of \<open>src/index.js\<close>.

  Modelling decisions:
  \<^item> The port file \<open>~/.ssh_ports.json\<close> is seen through the four library calls the source
    makes on it: \<open>fs.existsSync\<close>, \<open>fs.readFileSync\<close>, \<open>JSON.parse\<close> and
    \<open>fs.writeFileSync\<close> of a \<open>JSON.stringify\<close>. A file is therefore described by
    whether it exists, whether reading and writing it succeed, and the value
    \<open>JSON.parse\<close> gives for its text (none when the text is not JSON).
  \<^item> Only this process writes the file during a run.
  \<^item> Numbers of the file are integers. Host identifiers are network addresses: they are
    never the name of a property that a JavaScript object, array or string has of its own
    accord (\<open>__proto__\<close>, \<open>length\<close>, an array index and the like).
  \<^item> What the environment does is scripted: the list \<open>procs\<close> gives, for each spawned
    \<open>ssh\<close> process in turn, the events it emits; the list \<open>lines\<close> gives the lines
    the operator types at the port prompt. A script that runs out means the awaited
    promise is not resolved (the session is still open, the operator has not answered).
  \<^item> \<open>spawn\<close> returns a process object and \<open>inquirer.prompt\<close> a promise that is not
    rejected: failures of the process arrive as its events, and the prompt waits for the
    operator.
  \<^item> Every function returns, next to its result, the list of actions it performed, in
    order.
\<close>

subsection \<open>Values\<close>

text \<open>The values \<open>JSON.parse\<close> can return.\<close>

datatype jsval =
    JNull
  | JBool bool
  | JNum int
  | JStr string
  | JArr "jsval list"
  | JObj "string \<Rightarrow> jsval option"

text \<open>A JavaScript number as \<open>parseInt\<close> returns it: \<open>None\<close> is \<open>NaN\<close>.\<close>

type_synonym number = "int option"

text \<open>
  The value of the variable \<open>port\<close>: a value taken from the parsed file, or a number
  (\<open>defaultPort\<close>, or the result of \<open>parseInt\<close>).
\<close>

datatype portval = Stored jsval | Number number

datatype error = TypeError

text \<open>
  What a spawned process emits. A process that runs emits \<open>'close'\<close> with its code
  (\<open>None\<close> is \<open>null\<close>: the process was ended by a signal). A process that cannot be
  launched emits \<open>'error'\<close> and then \<open>'close'\<close> with the negative error number.
\<close>

datatype proc = SpawnError | Close "int option"

datatype message =
    AttemptingSSH string string portval
  | DisconnectHint
  | FailedToStart
  | SessionEnded
  | ConnectionFailed
  | PortSaved number string
  | ErrorLoading
  | ErrorSaving

datatype action =
    Log message
  | Spawn portval string string
  | Resolve bool
  | Prompt
  | Reject
  | Write jsval

datatype status = Succeeded | GaveUp | Waiting

record world =
  present :: bool
  readable :: bool
  writable :: bool
  content :: "jsval option"
  procs :: "proc list"
  lines :: "string list"

subsection \<open>JavaScript primitives used by the source\<close>

text \<open>\<open>v || d\<close> takes \<open>v\<close> when it is truthy.\<close>

fun truthy :: "jsval \<Rightarrow> bool" where
  "truthy JNull = False"
| "truthy (JBool b) = b"
| "truthy (JNum n) = (n \<noteq> 0)"
| "truthy (JStr s) = (s \<noteq> [])"
| "truthy (JArr xs) = True"
| "truthy (JObj m) = True"

text \<open>\<open>o[k]\<close>: reading a property of \<open>null\<close> throws; \<open>None\<close> is \<open>undefined\<close>.\<close>

fun getProp :: "jsval \<Rightarrow> string \<Rightarrow> error + jsval option" where
  "getProp JNull k = Inl TypeError"
| "getProp (JObj m) k = Inr (m k)"
| "getProp v k = Inr None"

text \<open>
  \<open>o[k] = v\<close> followed by \<open>JSON.stringify(o)\<close>, in a script that is not in strict mode:
  the assignment throws on \<open>null\<close>, is ignored on a boolean, a number or a string, and on
  an array it sets a property that \<open>JSON.stringify\<close> does not print.
\<close>

fun setProp :: "jsval \<Rightarrow> string \<Rightarrow> jsval \<Rightarrow> error + jsval" where
  "setProp JNull k v = Inl TypeError"
| "setProp (JObj m) k v = Inr (JObj (m(k \<mapsto> v)))"
| "setProp u k v = Inr u"

text \<open>\<open>JSON.stringify\<close> prints \<open>NaN\<close> as \<open>null\<close>.\<close>

fun json_of_number :: "number \<Rightarrow> jsval" where
  "json_of_number None = JNull"
| "json_of_number (Some n) = JNum n"

subsection \<open>\<open>parseInt\<close>\<close>

text \<open>
  \<open>parseInt(string)\<close> with no radix: leading white space is skipped, a sign is read, a
  prefix \<open>0x\<close> or \<open>0X\<close> selects radix 16 (radix 10 otherwise), and the longest run of
  digits of that radix is the value; with no digit the result is \<open>NaN\<close>. Strings are
  ASCII. The model computes the exact integer; JavaScript rounds it to a double, which
  changes neither the comparisons with 0 and 65536 nor any value between them.
\<close>

definition isWhite :: "char \<Rightarrow> bool" where
  "isWhite c = (c \<in> set [CHR 0x09, CHR 0x0A, CHR 0x0B, CHR 0x0C, CHR 0x0D, CHR 0x20])"

definition digitVal :: "char \<Rightarrow> nat option" where
  "digitVal c =
     (let n = (of_char c :: nat) in
      if 48 \<le> n \<and> n \<le> 57 then Some (n - 48)
      else if 97 \<le> n \<and> n \<le> 122 then Some (n - 87)
      else if 65 \<le> n \<and> n \<le> 90 then Some (n - 55)
      else None)"

fun stripSign :: "string \<Rightarrow> int \<times> string" where
  "stripSign [] = (1, [])"
| "stripSign (c # cs) =
     (if c = CHR ''-'' then (- 1, cs) else if c = CHR ''+'' then (1, cs) else (1, c # cs))"

fun stripPrefix :: "string \<Rightarrow> nat \<times> string" where
  "stripPrefix (a # b # cs) =
     (if a = CHR ''0'' \<and> (b = CHR ''x'' \<or> b = CHR ''X'') then (16, cs)
      else (10, a # b # cs))"
| "stripPrefix cs = (10, cs)"

fun digits :: "nat \<Rightarrow> string \<Rightarrow> nat list" where
  "digits R [] = []"
| "digits R (c # cs) =
     (case digitVal c of
        None \<Rightarrow> []
      | Some d \<Rightarrow> if d < R then d # digits R cs else [])"

definition mathInt :: "nat \<Rightarrow> nat list \<Rightarrow> nat" where
  "mathInt R ds = foldl (\<lambda>a d. a * R + d) 0 ds"

definition parseInt :: "string \<Rightarrow> number" where
  "parseInt s =
     (case stripSign (dropWhile isWhite s) of
        (sign, S) \<Rightarrow>
          (case stripPrefix S of
             (R, Z) \<Rightarrow>
               if digits R Z = [] then None
               else Some (sign * int (mathInt R (digits R Z)))))"

subsection \<open>The port store\<close>

definition loadPortConfigs :: "world \<Rightarrow> jsval \<times> action list" where
  "loadPortConfigs w =
     (if present w then
        (if readable w then
           (case content w of
              Some v \<Rightarrow> (v, [])
            | None \<Rightarrow> (JObj Map.empty, [Log ErrorLoading]))
         else (JObj Map.empty, [Log ErrorLoading]))
      else (JObj Map.empty, []))"

definition savePortConfig :: "string \<Rightarrow> number \<Rightarrow> world \<Rightarrow> world \<times> action list" where
  "savePortConfig ip port w =
     (case loadPortConfigs w of
        (configs, a) \<Rightarrow>
          (case setProp configs ip (json_of_number port) of
             Inl e \<Rightarrow> (w, a @ [Log ErrorSaving])
           | Inr configs' \<Rightarrow>
               if writable w
               then (w\<lparr>present := True, content := Some configs'\<rparr>, a @ [Write configs'])
               else (w, a @ [Log ErrorSaving])))"

subsection \<open>One connection attempt\<close>

text \<open>
  \<open>trySSHConnection\<close> logs, spawns \<open>ssh -p port user@ip\<close> and returns a promise. The
  promise is resolved by the first event of the process, through the handlers in
  \<open>onEvent\<close>: \<open>false\<close> on \<open>'error'\<close>, and on \<open>'close'\<close> \<open>false\<close> exactly for the code
  255. The result \<open>None\<close> is a promise that is not resolved. A promise is resolved
  once. After a launch error the \<open>'close'\<close> handler runs as well, on a negative code:
  it prints that the session ended, and its \<open>resolve(true)\<close> has no effect.
\<close>

fun onEvent :: "proc \<Rightarrow> bool \<times> action list" where
  "onEvent SpawnError = (False, [Log FailedToStart, Resolve False, Log SessionEnded])"
| "onEvent (Close code) =
     (if code = Some 255 then (False, [Resolve False])
      else (True, [Log SessionEnded, Resolve True]))"

definition trySSHConnection ::
  "string \<Rightarrow> string \<Rightarrow> portval \<Rightarrow> world \<Rightarrow> bool option \<times> world \<times> action list" where
  "trySSHConnection ipAddress sshUser port w =
     (let a = [Log (AttemptingSSH sshUser ipAddress port), Log DisconnectHint,
               Spawn port sshUser ipAddress]
      in case procs w of
           [] \<Rightarrow> (None, w, a)
         | p # ps \<Rightarrow>
             (case onEvent p of
                (success, e) \<Rightarrow> (Some success, w\<lparr>procs := ps\<rparr>, a @ e)))"

subsection \<open>The port prompt\<close>

text \<open>\<open>String(defaultPort)\<close>, the prompt's \<open>default\<close>: the answer the prompt library
  submits for an empty line.\<close>

definition defaultAnswer :: string where
  "defaultAnswer = ''22''"

definition filterInput :: "string \<Rightarrow> string" where
  "filterInput line = (if line = [] then defaultAnswer else line)"

definition validate :: "string \<Rightarrow> bool" where
  "validate input =
     (case parseInt input of
        None \<Rightarrow> False
      | Some port \<Rightarrow> 0 < port \<and> port < 65536)"

text \<open>The prompt library reads lines until \<open>validate\<close> accepts one; that line is the
  answer \<open>newPort\<close>.\<close>

fun readAnswer :: "string list \<Rightarrow> string option \<times> string list \<times> action list" where
  "readAnswer [] = (None, [], [])"
| "readAnswer (l # ls) =
     (if validate (filterInput l) then (Some (filterInput l), ls, [])
      else (case readAnswer ls of (r, ls', a) \<Rightarrow> (r, ls', Reject # a)))"

definition promptForPort :: "world \<Rightarrow> number option \<times> world \<times> action list" where
  "promptForPort w =
     (case readAnswer (lines w) of
        (None, ls, a) \<Rightarrow> (None, w\<lparr>lines := ls\<rparr>, Prompt # a)
      | (Some newPort, ls, a) \<Rightarrow> (Some (parseInt newPort), w\<lparr>lines := ls\<rparr>, Prompt # a))"

subsection \<open>The retry flow and \<open>sshIntoServer\<close>\<close>

text \<open>The anonymous \<open>async\<close> function that \<open>sshIntoServer\<close> starts.\<close>

definition retryFlow ::
  "string \<Rightarrow> string \<Rightarrow> portval \<Rightarrow> world \<Rightarrow> status \<times> world \<times> action list" where
  "retryFlow ipAddress sshUser port w =
     (case trySSHConnection ipAddress sshUser port w of
        (None, w1, a1) \<Rightarrow> (Waiting, w1, a1)
      | (Some success, w1, a1) \<Rightarrow>
          if success then (Succeeded, w1, a1)
          else
            (case promptForPort w1 of
               (None, w2, a2) \<Rightarrow> (Waiting, w2, a1 @ [Log ConnectionFailed] @ a2)
             | (Some port', w2, a2) \<Rightarrow>
                 (case trySSHConnection ipAddress sshUser (Number port') w2 of
                    (None, w3, a3) \<Rightarrow>
                      (Waiting, w3, a1 @ [Log ConnectionFailed] @ a2 @ a3)
                  | (Some success', w3, a3) \<Rightarrow>
                      if success' then
                        (case savePortConfig ipAddress port' w3 of
                           (w4, a4) \<Rightarrow>
                             (Succeeded, w4,
                              a1 @ [Log ConnectionFailed] @ a2 @ a3 @ a4 @
                              [Log (PortSaved port' ipAddress)]))
                      else (GaveUp, w3, a1 @ [Log ConnectionFailed] @ a2 @ a3))))"

definition defaultPort :: portval where
  "defaultPort = Number (Some 22)"

text \<open>\<open>portConfigs[ipAddress] || defaultPort\<close>\<close>

definition startingPort :: "jsval \<Rightarrow> string \<Rightarrow> error + portval" where
  "startingPort portConfigs ipAddress =
     (case getProp portConfigs ipAddress of
        Inl e \<Rightarrow> Inl e
      | Inr None \<Rightarrow> Inr defaultPort
      | Inr (Some v) \<Rightarrow> Inr (if truthy v then Stored v else defaultPort))"

text \<open>
  \<open>sshIntoServer\<close> returns as soon as the retry flow is started; the flow goes on by
  itself. The model gives the function's result as \<open>Inr\<close> with the state in which the
  flow comes to rest, and \<open>Inl\<close> when the function throws.
\<close>

definition sshIntoServer ::
  "string \<Rightarrow> string \<Rightarrow> world \<Rightarrow> error + status \<times> world \<times> action list" where
  "sshIntoServer ipAddress sshUser w =
     (case loadPortConfigs w of
        (portConfigs, a0) \<Rightarrow>
          (case startingPort portConfigs ipAddress of
             Inl e \<Rightarrow> Inl e
           | Inr port \<Rightarrow>
               (case retryFlow ipAddress sshUser port w of
                  (st, w', a) \<Rightarrow> Inr (st, w', a0 @ a))))"

subsection \<open>Reading a list of actions\<close>

fun spawned :: "action list \<Rightarrow> portval list" where
  "spawned [] = []"
| "spawned (Spawn p u h # as) = p # spawned as"
| "spawned (a # as) = spawned as"

fun resolved :: "action list \<Rightarrow> bool list" where
  "resolved [] = []"
| "resolved (Resolve b # as) = b # resolved as"
| "resolved (a # as) = resolved as"

fun written :: "action list \<Rightarrow> jsval list" where
  "written [] = []"
| "written (Write c # as) = c # written as"
| "written (a # as) = written as"

fun prompts :: "action list \<Rightarrow> nat" where
  "prompts [] = 0"
| "prompts (Prompt # as) = Suc (prompts as)"
| "prompts (a # as) = prompts as"

text \<open>The actions of a call of \<open>sshIntoServer\<close>: none when it throws.\<close>

fun actionsOf :: "error + status \<times> world \<times> action list \<Rightarrow> action list" where
  "actionsOf (Inl e) = []"
| "actionsOf (Inr (st, w, acts)) = acts"

subsection \<open>Notation for the statements\<close>

text \<open>The actions with which every connection attempt starts.\<close>

abbreviation started :: "string \<Rightarrow> string \<Rightarrow> portval \<Rightarrow> action list" where
  "started ipAddress sshUser port \<equiv>
     [Log (AttemptingSSH sshUser ipAddress port), Log DisconnectHint,
      Spawn port sshUser ipAddress]"

text \<open>Example states: no port file; a readable port file holding a JSON value.\<close>

abbreviation no_file :: "proc list \<Rightarrow> string list \<Rightarrow> world" where
  "no_file ps ls \<equiv>
     \<lparr>present = False, readable = True, writable = True, content = None,
      procs = ps, lines = ls\<rparr>"

abbreviation file_with :: "jsval \<Rightarrow> bool \<Rightarrow> proc list \<Rightarrow> string list \<Rightarrow> world" where
  "file_with v wr ps ls \<equiv>
     \<lparr>present = True, readable = True, writable = wr, content = Some v,
      procs = ps, lines = ls\<rparr>"

section \<open>Auxiliary facts\<close>

lemmas parse_defs = parseInt_def isWhite_def digitVal_def mathInt_def

lemma spawned_append: "spawned (xs @ ys) = spawned xs @ spawned ys"
  by (induction xs rule: spawned.induct) simp_all

lemma resolved_append: "resolved (xs @ ys) = resolved xs @ resolved ys"
  by (induction xs rule: resolved.induct) simp_all

lemma written_append: "written (xs @ ys) = written xs @ written ys"
  by (induction xs rule: written.induct) simp_all

lemma prompts_append: "prompts (xs @ ys) = prompts xs + prompts ys"
  by (induction xs rule: prompts.induct) simp_all

lemma Write_in_written: "(Write c \<in> set as) = (c \<in> set (written as))"
  by (induction as rule: written.induct) auto

lemma parseInt_Nil: "parseInt [] = None"
  by (simp add: parse_defs)

lemma validate_iff: "validate input = (\<exists>p. parseInt input = Some p \<and> 0 < p \<and> p < 65536)"
  by (simp add: validate_def split: option.splits)

lemma filterInput_parsed: "parseInt s = Some p \<Longrightarrow> filterInput s = s"
  by (auto simp: filterInput_def parseInt_Nil)

lemma readAnswer_skips:
  "\<forall>l\<in>set bad. \<not> validate (filterInput l) \<Longrightarrow> validate (filterInput good) \<Longrightarrow>
   readAnswer (bad @ good # rest) = (Some (filterInput good), rest, replicate (length bad) Reject)"
  by (induction bad) simp_all

lemma readAnswer_quiet:
  "readAnswer ls = (r, ls', a) \<Longrightarrow>
   spawned a = [] \<and> resolved a = [] \<and> written a = [] \<and> prompts a = 0"
proof (induction ls arbitrary: r ls' a)
  case Nil
  then show ?case by simp
next
  case (Cons l ls)
  show ?case
  proof (cases "validate (filterInput l)")
    case True
    with Cons.prems show ?thesis by simp
  next
    case False
    obtain r0 ls0 a0 where rec: "readAnswer ls = (r0, ls0, a0)"
      by (cases "readAnswer ls") auto
    with False Cons.prems have "a = Reject # a0" by simp
    with Cons.IH [OF rec] show ?thesis by simp
  qed
qed

lemma readAnswer_valid: "readAnswer ls = (Some x, ls', a) \<Longrightarrow> validate x"
proof (induction ls arbitrary: ls' a)
  case Nil
  then show ?case by simp
next
  case (Cons l ls)
  show ?case
  proof (cases "validate (filterInput l)")
    case True
    with Cons.prems show ?thesis by auto
  next
    case False
    obtain r0 ls0 a0 where rec: "readAnswer ls = (r0, ls0, a0)"
      by (cases "readAnswer ls") auto
    with False Cons.prems have "r0 = Some x" by simp
    with Cons.IH rec show ?thesis by simp
  qed
qed

lemmas run_defs = sshIntoServer_def loadPortConfigs_def startingPort_def defaultPort_def
  retryFlow_def trySSHConnection_def promptForPort_def savePortConfig_def validate_def
  filterInput_def defaultAnswer_def parse_defs

lemma try_Nil:
  "procs w = [] \<Longrightarrow> trySSHConnection ip u p w = (None, w, started ip u p)"
  by (simp add: trySSHConnection_def)

lemma try_Cons:
  "procs w = q # qs \<Longrightarrow>
   trySSHConnection ip u p w =
     (Some (fst (onEvent q)), w\<lparr>procs := qs\<rparr>, started ip u p @ snd (onEvent q))"
  by (simp add: trySSHConnection_def split: prod.splits)

lemma onEvent_acts:
  "spawned (snd (onEvent q)) = [] \<and> resolved (snd (onEvent q)) = [fst (onEvent q)] \<and>
   written (snd (onEvent q)) = [] \<and> prompts (snd (onEvent q)) = 0"
  by (cases q) simp_all

lemma onEvent_success: "fst (onEvent q) \<Longrightarrow> snd (onEvent q) = [Log SessionEnded, Resolve True]"
  by (cases q) (simp_all split: if_splits)

lemma retryFlow_cases:
  assumes run: "retryFlow ip u port w = (st, w', acts)"
  obtains
    (session_open) "procs w = []" "st = Waiting" "w' = w" "acts = started ip u port"
  | (first_success) q qs where "procs w = q # qs" "fst (onEvent q)" "st = Succeeded"
      "w' = w\<lparr>procs := qs\<rparr>" "acts = started ip u port @ snd (onEvent q)"
  | (no_answer) q qs ls a where "procs w = q # qs" "\<not> fst (onEvent q)"
      "readAnswer (lines w) = (None, ls, a)" "st = Waiting"
      "w' = w\<lparr>procs := qs, lines := ls\<rparr>"
      "acts = started ip u port @ snd (onEvent q) @ [Log ConnectionFailed, Prompt] @ a"
  | (retry_open) q x ls a where "procs w = [q]" "\<not> fst (onEvent q)"
      "readAnswer (lines w) = (Some x, ls, a)" "st = Waiting"
      "w' = w\<lparr>procs := [], lines := ls\<rparr>"
      "acts = started ip u port @ snd (onEvent q) @ [Log ConnectionFailed, Prompt] @ a @
         started ip u (Number (parseInt x))"
  | (retry_success) q q' qs x ls a a' where "procs w = q # q' # qs" "\<not> fst (onEvent q)"
      "readAnswer (lines w) = (Some x, ls, a)" "fst (onEvent q')" "st = Succeeded"
      "savePortConfig ip (parseInt x) (w\<lparr>lines := ls, procs := qs\<rparr>) = (w', a')"
      "acts = started ip u port @ snd (onEvent q) @ [Log ConnectionFailed, Prompt] @ a @
         started ip u (Number (parseInt x)) @ snd (onEvent q') @ a' @
         [Log (PortSaved (parseInt x) ip)]"
  | (gave_up) q q' qs x ls a where "procs w = q # q' # qs" "\<not> fst (onEvent q)"
      "readAnswer (lines w) = (Some x, ls, a)" "\<not> fst (onEvent q')" "st = GaveUp"
      "w' = w\<lparr>lines := ls, procs := qs\<rparr>"
      "acts = started ip u port @ snd (onEvent q) @ [Log ConnectionFailed, Prompt] @ a @
         started ip u (Number (parseInt x)) @ snd (onEvent q')"
proof (cases "procs w")
  case Nil
  with run have "st = Waiting" "w' = w" "acts = started ip u port"
    by (simp_all add: retryFlow_def try_Nil)
  with Nil show thesis by (rule session_open)
next
  case (Cons q qs)
  note first = this
  show thesis
  proof (cases "fst (onEvent q)")
    case True
    with run first have "st = Succeeded" "w' = w\<lparr>procs := qs\<rparr>"
        "acts = started ip u port @ snd (onEvent q)"
      by (simp_all add: retryFlow_def try_Cons)
    with first True show thesis by (rule first_success)
  next
    case False
    note failed = this
    obtain r ls a where ans: "readAnswer (lines w) = (r, ls, a)"
      by (cases "readAnswer (lines w)") auto
    show thesis
    proof (cases r)
      case None
      with run first failed ans have "st = Waiting" "w' = w\<lparr>procs := qs, lines := ls\<rparr>"
          "acts = started ip u port @ snd (onEvent q) @ [Log ConnectionFailed, Prompt] @ a"
        by (simp_all add: retryFlow_def try_Cons promptForPort_def)
      with first failed ans [unfolded None] show thesis by (rule no_answer)
    next
      case (Some x)
      note answered = ans [unfolded Some]
      show thesis
      proof (cases qs)
        case Nil
        with run first failed answered
        have "st = Waiting" "w' = w\<lparr>procs := [], lines := ls\<rparr>"
          "acts = started ip u port @ snd (onEvent q) @ [Log ConnectionFailed, Prompt] @ a @
            started ip u (Number (parseInt x))"
          by (simp_all add: retryFlow_def try_Cons try_Nil promptForPort_def)
        with first [unfolded Nil] failed answered show thesis by (rule retry_open)
      next
        case (Cons q' qs')
        note second = first [unfolded Cons]
        show thesis
        proof (cases "fst (onEvent q')")
          case True
          obtain w4 a4 where sv:
            "savePortConfig ip (parseInt x) (w\<lparr>lines := ls, procs := qs'\<rparr>) = (w4, a4)"
            by (cases "savePortConfig ip (parseInt x) (w\<lparr>lines := ls, procs := qs'\<rparr>)") auto
          have "trySSHConnection ip u port w =
              (Some False, w\<lparr>procs := q' # qs'\<rparr>, started ip u port @ snd (onEvent q))"
            using second failed by (simp add: try_Cons)
          moreover have "promptForPort (w\<lparr>procs := q' # qs'\<rparr>) =
              (Some (parseInt x), w\<lparr>procs := q' # qs'\<rparr>\<lparr>lines := ls\<rparr>, Prompt # a)"
            using answered by (simp add: promptForPort_def)
          moreover have "trySSHConnection ip u (Number (parseInt x))
               (w\<lparr>procs := q' # qs'\<rparr>\<lparr>lines := ls\<rparr>) =
              (Some True, w\<lparr>lines := ls, procs := qs'\<rparr>,
               started ip u (Number (parseInt x)) @ snd (onEvent q'))"
            using True by (simp add: try_Cons)
          ultimately have "retryFlow ip u port w = (Succeeded, w4,
              started ip u port @ snd (onEvent q) @ [Log ConnectionFailed, Prompt] @ a @
              started ip u (Number (parseInt x)) @ snd (onEvent q') @ a4 @
              [Log (PortSaved (parseInt x) ip)])"
            unfolding retryFlow_def using sv by simp
          with run have "st = Succeeded" "w4 = w'"
            "acts = started ip u port @ snd (onEvent q) @ [Log ConnectionFailed, Prompt] @ a @
              started ip u (Number (parseInt x)) @ snd (onEvent q') @ a4 @
              [Log (PortSaved (parseInt x) ip)]"
            by simp_all
          with second failed answered True sv show thesis
            by (intro retry_success [of q q' qs' x ls a a4]) simp_all
        next
          case False
          with run second failed answered
          have "st = GaveUp" "w' = w\<lparr>lines := ls, procs := qs'\<rparr>"
            "acts = started ip u port @ snd (onEvent q) @ [Log ConnectionFailed, Prompt] @ a @
              started ip u (Number (parseInt x)) @ snd (onEvent q')"
            by (simp_all add: retryFlow_def try_Cons promptForPort_def)
          with second failed answered False show thesis by (rule gave_up)
        qed
      qed
    qed
  qed
qed

lemma onEvent_nonempty: "snd (onEvent q) \<noteq> []"
  by (cases q) simp_all

lemma load_acts: "written (snd (loadPortConfigs w)) = [] \<and> spawned (snd (loadPortConfigs w)) = [] \<and>
   resolved (snd (loadPortConfigs w)) = [] \<and> prompts (snd (loadPortConfigs w)) = 0"
  by (simp add: loadPortConfigs_def split: option.splits)

lemma load_scripts: "loadPortConfigs (w\<lparr>lines := ls, procs := qs\<rparr>) = loadPortConfigs w"
  by (simp add: loadPortConfigs_def)

lemma save_cases:
  assumes "savePortConfig ip port w = (w', a')"
  obtains
    (wrote) c where "setProp (fst (loadPortConfigs w)) ip (json_of_number port) = Inr c"
      "writable w" "w' = w\<lparr>present := True, content := Some c\<rparr>"
      "a' = snd (loadPortConfigs w) @ [Write c]"
  | (failed) "w' = w" "a' = snd (loadPortConfigs w) @ [Log ErrorSaving]"
  using assms
  by (auto simp: savePortConfig_def split: prod.splits sum.splits if_splits)

lemma sshIntoServer_Inr:
  assumes "sshIntoServer ip u w = Inr (st, w', acts)"
  obtains port a where "startingPort (fst (loadPortConfigs w)) ip = Inr port"
    "retryFlow ip u port w = (st, w', a)" "acts = snd (loadPortConfigs w) @ a"
  using assms
  by (auto simp: sshIntoServer_def split: prod.splits sum.splits)

lemma save_fields: "savePortConfig ip port w = (w', a') \<Longrightarrow>
   procs w' = procs w \<and> lines w' = lines w \<and> spawned a' = [] \<and> resolved a' = [] \<and>
   prompts a' = 0"
  by (erule save_cases) (simp_all add: spawned_append resolved_append prompts_append load_acts)

lemma decimal_char:
  assumes "digitVal c = Some d" "d < 10"
  shows "\<not> isWhite c \<and> c \<noteq> CHR ''-'' \<and> c \<noteq> CHR ''+'' \<and> c \<noteq> CHR ''x'' \<and> c \<noteq> CHR ''X''"
  using assms by (auto simp: isWhite_def digitVal_def)

lemma digits_decimal_prefix:
  assumes "\<forall>c\<in>set ds. \<exists>d<10. digitVal c = Some d" and "\<forall>d<10. digitVal c' \<noteq> Some d"
  shows "digits 10 (ds @ c' # t) = digits 10 ds"
  using assms by (induction ds) (auto split: option.splits)

lemma parseInt_ignores_rest:
  assumes ne: "ds \<noteq> []"
    and dec: "\<forall>c\<in>set ds. \<exists>d<10. digitVal c = Some d"
    and stop: "\<forall>d<10. digitVal c' \<noteq> Some d"
    and nohex: "\<not> (ds = ''0'' \<and> (c' = CHR ''x'' \<or> c' = CHR ''X''))"
  shows "parseInt (ds @ c' # t) = parseInt ds"
proof -
  from ne obtain c cs where ds: "ds = c # cs" by (cases ds) auto
  with dec obtain d where d: "digitVal c = Some d" "d < 10" by auto
  note c = decimal_char [OF d]
  have w1: "dropWhile isWhite (ds @ c' # t) = ds @ c' # t" using ds c by simp
  have w2: "dropWhile isWhite ds = ds" using ds c by simp
  have s1: "stripSign (ds @ c' # t) = (1, ds @ c' # t)" using ds c by simp
  have s2: "stripSign ds = (1, ds)" using ds c by simp
  have p2: "stripPrefix ds = (10, ds)"
  proof (cases cs)
    case Nil
    with ds show ?thesis by simp
  next
    case (Cons b bs)
    with ds dec obtain e where "digitVal b = Some e" "e < 10" by auto
    from decimal_char [OF this] ds Cons show ?thesis by simp
  qed
  have p1: "stripPrefix (ds @ c' # t) = (10, ds @ c' # t)"
  proof (cases cs)
    case Nil
    with ds nohex show ?thesis by auto
  next
    case (Cons b bs)
    with ds dec obtain e where "digitVal b = Some e" "e < 10" by auto
    from decimal_char [OF this] ds Cons show ?thesis by simp
  qed
  show ?thesis
    by (simp add: parseInt_def w1 w2 s1 s2 p1 p2 digits_decimal_prefix [OF dec stop])
qed

lemma loadPortConfigs_fails_soft:
  "(\<not> present w \<longrightarrow> loadPortConfigs w = (JObj Map.empty, [])) \<and>
   (present w \<and> (\<not> readable w \<or> content w = None) \<longrightarrow>
      loadPortConfigs w = (JObj Map.empty, [Log ErrorLoading])) \<and>
   (present w \<and> readable w \<and> content w = Some v \<longrightarrow> loadPortConfigs w = (v, []))"
  by (simp add: loadPortConfigs_def)

lemma sshIntoServer_returns:
  "fst (loadPortConfigs w) \<noteq> JNull \<Longrightarrow> \<exists>r. sshIntoServer ipAddress sshUser w = Inr r"
  by (cases "fst (loadPortConfigs w)")
    (auto simp: sshIntoServer_def startingPort_def split: prod.splits sum.splits option.splits)

section \<open>The claims\<close>

text \<open>
  Claim C1. For every code of the \<open>'close'\<close> event of the spawned process (a number, or
  \<open>null\<close>), the handler, and with it the connection attempt, resolves to \<open>false\<close>
  (Failure) exactly when the code is 255, and to \<open>true\<close> (Success) for every other
  code, 0 included.
\<close>

theorem close_code_classified:
  "fst (onEvent (Close code)) = (code \<noteq> Some 255) \<and>
   fst (trySSHConnection ipAddress sshUser port (w\<lparr>procs := Close code # ps\<rparr>)) =
     Some (code \<noteq> Some 255)"
  by (simp add: trySSHConnection_def)

text \<open>
  Claim C2 says that the store holds an updated entry for the host if and only if some
  attempt returned Success. It fails where the first attempt succeeds: on a host with no
  port file whose first session ends with code 0, the attempt resolves to \<open>true\<close>,
  nothing is written, and the store has no entry for the host afterwards.
\<close>

theorem first_success_saves_nothing:
  "sshIntoServer ''203.0.113.7'' ''root'' (no_file [Close (Some 0)] []) =
     Inr (Succeeded, no_file [] [],
       started ''203.0.113.7'' ''root'' (Number (Some 22)) @ [Log SessionEnded, Resolve True]) \<and>
   resolved (started ''203.0.113.7'' ''root'' (Number (Some 22)) @
       [Log SessionEnded, Resolve True]) = [True] \<and>
   written (started ''203.0.113.7'' ''root'' (Number (Some 22)) @
       [Log SessionEnded, Resolve True]) = [] \<and>
   getProp (fst (loadPortConfigs (no_file [] []))) ''203.0.113.7'' = Inr None"
  by (simp add: run_defs)

text \<open>
  Claim C2, amended. In every run of \<open>sshIntoServer\<close> the store is written only if the
  first attempt returned Failure and the retry attempt returned Success; in such a run, when
  the file is writable and the loaded store is a mapping \<open>m\<close>, the run succeeds and writes
  \<open>m\<close> with the host's entry set to the port of the retry, a validated port. In every
  other run (the first attempt succeeds, a promise stays open, or the run gives up)
  nothing is written and the store is as it was; a run that gives up is one with two failed
  attempts.
\<close>

theorem store_written_iff_retry_succeeded:
  assumes run: "sshIntoServer ipAddress sshUser w = Inr (st, w', acts)"
  shows "(written acts \<noteq> [] \<longrightarrow> resolved acts = [False, True]) \<and>
    (resolved acts = [False, True] \<and> writable w \<and> fst (loadPortConfigs w) = JObj m \<longrightarrow>
       st = Succeeded \<and>
       (\<exists>port p. 0 < p \<and> p < 65536 \<and> spawned acts = [port, Number (Some p)] \<and>
          written acts = [JObj (m(ipAddress \<mapsto> JNum p))] \<and>
          present w' \<and> content w' = Some (JObj (m(ipAddress \<mapsto> JNum p))))) \<and>
    (resolved acts \<noteq> [False, True] \<longrightarrow>
       written acts = [] \<and> present w' = present w \<and> content w' = content w) \<and>
    (st = GaveUp \<longrightarrow> resolved acts = [False, False])"
proof -
  from run obtain port a where
    flow: "retryFlow ipAddress sshUser port w = (st, w', a)" and
    acts: "acts = snd (loadPortConfigs w) @ a"
    by (rule sshIntoServer_Inr)
  from flow show ?thesis
  proof (cases rule: retryFlow_cases)
    case session_open
    with acts show ?thesis
      by (simp add: written_append resolved_append load_acts)
  next
    case (first_success q qs)
    with acts show ?thesis
      by (simp add: written_append resolved_append load_acts onEvent_acts)
  next
    case (no_answer q qs ls a1)
    with acts readAnswer_quiet [OF no_answer(3)] show ?thesis
      by (simp add: written_append resolved_append load_acts onEvent_acts)
  next
    case (retry_open q x ls a1)
    with acts readAnswer_quiet [OF retry_open(3)] show ?thesis
      by (simp add: written_append resolved_append load_acts onEvent_acts)
  next
    case (gave_up q q' qs x ls a1)
    with acts readAnswer_quiet [OF gave_up(3)] show ?thesis
      by (simp add: written_append resolved_append load_acts onEvent_acts)
  next
    case (retry_success q q' qs x ls a1 a2)
    from readAnswer_valid [OF retry_success(3)] obtain p where
      p: "parseInt x = Some p" "0 < p" "p < 65536"
      by (auto simp: validate_iff)
    note quiet = readAnswer_quiet [OF retry_success(3)]
    note sv = save_fields [OF retry_success(6)]
    have res: "resolved acts = [False, True]"
      using acts retry_success(2,4,7) quiet sv
      by (simp add: resolved_append load_acts onEvent_acts)
    have sp: "spawned acts = [port, Number (Some p)]"
      using acts retry_success(7) quiet sv p(1)
      by (simp add: spawned_append load_acts onEvent_acts)
    have wr: "writable w \<Longrightarrow> fst (loadPortConfigs w) = JObj m \<Longrightarrow>
       written acts = [JObj (m(ipAddress \<mapsto> JNum p))] \<and>
          present w' \<and> content w' = Some (JObj (m(ipAddress \<mapsto> JNum p)))"
    proof -
      assume w: "writable w" and m: "fst (loadPortConfigs w) = JObj m"
      from retry_success(6) show ?thesis
      proof (cases rule: save_cases)
        case (wrote c)
        from wrote(1) m p(1) have "c = JObj (m(ipAddress \<mapsto> JNum p))"
          by (simp add: load_scripts)
        with wrote(3,4) acts retry_success(7) quiet show ?thesis
          by (simp add: written_append load_acts onEvent_acts load_scripts)
      next
        case failed
        from retry_success(6) w m p(1) failed(2) show ?thesis
          by (simp add: savePortConfig_def load_scripts split: prod.splits)
      qed
    qed
    from res sp wr p(2,3) retry_success(5) show ?thesis by auto
  qed
qed

theorem store_written_iff_retry_succeeded_witness:
  "\<exists>w' acts. sshIntoServer ''203.0.113.7'' ''root''
       (no_file [Close (Some 255), Close (Some 0)] [''2200'']) = Inr (Succeeded, w', acts) \<and>
     resolved acts = [False, True] \<and>
     written acts = [JObj [''203.0.113.7'' \<mapsto> JNum 2200]] \<and>
     present w' \<and> content w' = Some (JObj [''203.0.113.7'' \<mapsto> JNum 2200])"
proof -
  let ?acts = "started ''203.0.113.7'' ''root'' (Number (Some 22)) @
       [Resolve False, Log ConnectionFailed, Prompt] @
       started ''203.0.113.7'' ''root'' (Number (Some 2200)) @
       [Log SessionEnded, Resolve True, Write (JObj [''203.0.113.7'' \<mapsto> JNum 2200]),
        Log (PortSaved (Some 2200) ''203.0.113.7'')]"
  let ?w' = "\<lparr>present = True, readable = True, writable = True,
        content = Some (JObj [''203.0.113.7'' \<mapsto> JNum 2200]), procs = [], lines = []\<rparr>"
  have run: "sshIntoServer ''203.0.113.7'' ''root''
       (no_file [Close (Some 255), Close (Some 0)] [''2200'']) = Inr (Succeeded, ?w', ?acts)"
    by (simp add: run_defs)
  have res: "resolved ?acts = [False, True]" by simp
  have m: "fst (loadPortConfigs (no_file [Close (Some 255), Close (Some 0)] [''2200''])) =
      JObj Map.empty"
    by (simp add: loadPortConfigs_def)
  from store_written_iff_retry_succeeded [OF run, of Map.empty] res m
  have "\<exists>port p. spawned ?acts = [port, Number (Some p)] \<and>
          written ?acts = [JObj [''203.0.113.7'' \<mapsto> JNum p]] \<and>
          present ?w' \<and> content ?w' = Some (JObj [''203.0.113.7'' \<mapsto> JNum p])"
    by auto
  then have "written ?acts = [JObj [''203.0.113.7'' \<mapsto> JNum 2200]] \<and>
          present ?w' \<and> content ?w' = Some (JObj [''203.0.113.7'' \<mapsto> JNum 2200])"
    by auto
  with run res show ?thesis by blast
qed

text \<open>
  Claim C3. Let every process that the environment can offer fail (two or more of them),
  let the store give a starting port, and let the operator type any number of rejected
  lines and then an accepted one. Then the run gives up after exactly two attempts, the
  first on the remembered or default port and the second on the operator's port; there is
  exactly one prompt, and it comes before the second process is spawned; the run's actions
  end with what the handlers of that second process do; no third process is started, no
  further line is read and nothing is written.
\<close>

theorem two_attempts_then_gave_up:
  assumes start: "startingPort (fst (loadPortConfigs w)) ipAddress = Inr port"
    and fail: "\<forall>q\<in>set (procs w). \<not> fst (onEvent q)"
    and two: "2 \<le> length (procs w)"
    and typed: "lines w = bad @ good # rest"
    and bad: "\<forall>l\<in>set bad. \<not> validate (filterInput l)"
    and good: "validate (filterInput good)"
  shows "\<exists>w' acts pre. sshIntoServer ipAddress sshUser w = Inr (GaveUp, w', acts) \<and>
     spawned acts = [port, Number (parseInt (filterInput good))] \<and>
     resolved acts = [False, False] \<and>
     prompts acts = 1 \<and>
     acts = pre @ Spawn (Number (parseInt (filterInput good))) sshUser ipAddress #
              snd (onEvent (procs w ! 1)) \<and>
     prompts pre = 1 \<and> spawned pre = [port] \<and> written acts = [] \<and>
     procs w' = drop 2 (procs w) \<and> lines w' = rest \<and>
     present w' = present w \<and> content w' = content w"
proof -
  from two obtain q q' qs where ps: "procs w = q # q' # qs"
    by (cases "procs w"; cases "tl (procs w)") auto
  with fail have f: "\<not> fst (onEvent q)" "\<not> fst (onEvent q')" by simp_all
  have ans: "readAnswer (lines w) =
      (Some (filterInput good), rest, replicate (length bad) Reject)"
    using readAnswer_skips [OF bad good] typed by simp
  obtain st w' a where flow: "retryFlow ipAddress sshUser port w = (st, w', a)"
    by (cases "retryFlow ipAddress sshUser port w") auto
  have run: "sshIntoServer ipAddress sshUser w = Inr (st, w', snd (loadPortConfigs w) @ a)"
    using start flow by (cases "loadPortConfigs w") (simp add: sshIntoServer_def)
  note quiet = readAnswer_quiet [OF ans]
  let ?pre = "snd (loadPortConfigs w) @ started ipAddress sshUser port @ snd (onEvent q) @
      [Log ConnectionFailed, Prompt] @ replicate (length bad) Reject @
      [Log (AttemptingSSH sshUser ipAddress (Number (parseInt (filterInput good)))),
       Log DisconnectHint]"
  from flow have res: "st = GaveUp \<and>
     a = started ipAddress sshUser port @ snd (onEvent q) @
       [Log ConnectionFailed, Prompt] @ replicate (length bad) Reject @
       started ipAddress sshUser (Number (parseInt (filterInput good))) @ snd (onEvent q') \<and>
     procs w' = qs \<and> lines w' = rest \<and>
     present w' = present w \<and> content w' = content w"
  proof (cases rule: retryFlow_cases)
    case (gave_up q1 q1' qs1 x ls a1)
    with ps ans show ?thesis by simp
  qed (use ps ans f in simp_all)
  then have shape: "snd (loadPortConfigs w) @ a =
      ?pre @ Spawn (Number (parseInt (filterInput good))) sshUser ipAddress #
        snd (onEvent (procs w ! 1))"
    using ps by simp
  have pre: "prompts ?pre = 1 \<and> spawned ?pre = [port]"
    using quiet by (simp add: spawned_append prompts_append load_acts onEvent_acts)
  have proj: "spawned (snd (loadPortConfigs w) @ a) =
       [port, Number (parseInt (filterInput good))] \<and>
     resolved (snd (loadPortConfigs w) @ a) = [False, False] \<and>
     prompts (snd (loadPortConfigs w) @ a) = 1 \<and>
     written (snd (loadPortConfigs w) @ a) = []"
    using res f quiet
    by (simp add: spawned_append resolved_append prompts_append written_append
        load_acts onEvent_acts)
  from run res shape pre proj ps show ?thesis by auto
qed

theorem two_attempts_then_gave_up_witness:
  "\<exists>w' acts pre. sshIntoServer ''203.0.113.7'' ''root''
      (file_with (JObj [''203.0.113.7'' \<mapsto> JNum 2200]) True
         [Close (Some 255), SpawnError, Close (Some 255)] [''abc'', ''2222'', ''2022'']) =
       Inr (GaveUp, w', acts) \<and>
     spawned acts = [Stored (JNum 2200), Number (Some 2222)] \<and>
     resolved acts = [False, False] \<and> prompts acts = 1 \<and>
     acts = pre @ Spawn (Number (Some 2222)) ''root'' ''203.0.113.7'' #
              [Log FailedToStart, Resolve False, Log SessionEnded] \<and>
     prompts pre = 1 \<and> spawned pre = [Stored (JNum 2200)] \<and>
     written acts = [] \<and> procs w' = [Close (Some 255)] \<and> lines w' = [''2022'']"
proof -
  let ?w = "file_with (JObj [''203.0.113.7'' \<mapsto> JNum 2200]) True
         [Close (Some 255), SpawnError, Close (Some 255)] [''abc'', ''2222'', ''2022'']"
  have start: "startingPort (fst (loadPortConfigs ?w)) ''203.0.113.7'' = Inr (Stored (JNum 2200))"
    by (simp add: startingPort_def loadPortConfigs_def)
  have fail: "\<forall>q\<in>set (procs ?w). \<not> fst (onEvent q)" by simp
  have two: "2 \<le> length (procs ?w)" by simp
  have typed: "lines ?w = [''abc''] @ ''2222'' # [''2022'']" by simp
  have bad: "\<forall>l\<in>set [''abc'']. \<not> validate (filterInput l)"
    by (simp add: validate_def filterInput_def parse_defs)
  have good: "validate (filterInput ''2222'')"
    by (simp add: validate_def filterInput_def parse_defs)
  have val: "parseInt (filterInput ''2222'') = Some 2222"
    by (simp add: filterInput_def parse_defs)
  have snd_proc: "procs ?w ! 1 = SpawnError" by simp
  from two_attempts_then_gave_up [OF start fail two typed bad good, of "''root''"] val snd_proc
  show ?thesis by auto
qed

text \<open>
  Claim C4 says that a launch error is not retried. It fails: when the first \<open>ssh\<close>
  process cannot be launched, the run logs the error, prompts the operator once and spawns
  a second process on the port entered (here that attempt succeeds and the port is
  written).
\<close>

theorem launch_error_is_retried:
  "Log FailedToStart \<in> set (actionsOf (sshIntoServer ''203.0.113.7'' ''root''
       (no_file [SpawnError, Close (Some 0)] [''2222'']))) \<and>
   prompts (actionsOf (sshIntoServer ''203.0.113.7'' ''root''
       (no_file [SpawnError, Close (Some 0)] [''2222'']))) = 1 \<and>
   spawned (actionsOf (sshIntoServer ''203.0.113.7'' ''root''
       (no_file [SpawnError, Close (Some 0)] [''2222'']))) =
     [Number (Some 22), Number (Some 2222)] \<and>
   resolved (actionsOf (sshIntoServer ''203.0.113.7'' ''root''
       (no_file [SpawnError, Close (Some 0)] [''2222'']))) = [False, True] \<and>
   written (actionsOf (sshIntoServer ''203.0.113.7'' ''root''
       (no_file [SpawnError, Close (Some 0)] [''2222'']))) =
     [JObj [''203.0.113.7'' \<mapsto> JNum 2222]]"
  by (simp add: run_defs)

text \<open>
  Claim C4, amended. When the \<open>ssh\<close> process fails to launch, the attempt logs the error
  and resolves to \<open>false\<close>, as it does for exit code 255. After a launch error of the
  first attempt the flow therefore prompts the operator once and, on the first accepted
  line, makes a second attempt on that port; the run succeeds if that attempt succeeds and
  gives up if it fails (a second launch error included), with no third attempt.
\<close>

theorem launch_error_treated_as_failure:
  assumes ps: "procs w = SpawnError # q # qs"
    and typed: "lines w = bad @ good # rest"
    and bad: "\<forall>l\<in>set bad. \<not> validate (filterInput l)"
    and good: "validate (filterInput good)"
  shows "fst (trySSHConnection ipAddress sshUser port w) = Some False \<and>
    fst (snd (trySSHConnection ipAddress sshUser port w)) = w\<lparr>procs := q # qs\<rparr> \<and>
    Log FailedToStart \<in> set (snd (snd (trySSHConnection ipAddress sshUser port w))) \<and>
    resolved (snd (snd (trySSHConnection ipAddress sshUser port w))) = [False] \<and>
    (\<exists>st w' acts. retryFlow ipAddress sshUser port w = (st, w', acts) \<and>
       Log FailedToStart \<in> set acts \<and> prompts acts = 1 \<and>
       spawned acts = [port, Number (parseInt (filterInput good))] \<and>
       resolved acts = [False, fst (onEvent q)] \<and>
       st = (if fst (onEvent q) then Succeeded else GaveUp) \<and>
       procs w' = qs)"
proof -
  have first: "fst (trySSHConnection ipAddress sshUser port w) = Some False \<and>
    fst (snd (trySSHConnection ipAddress sshUser port w)) = w\<lparr>procs := q # qs\<rparr> \<and>
    Log FailedToStart \<in> set (snd (snd (trySSHConnection ipAddress sshUser port w))) \<and>
    resolved (snd (snd (trySSHConnection ipAddress sshUser port w))) = [False]"
    using ps by (simp add: try_Cons)
  have ans: "readAnswer (lines w) =
      (Some (filterInput good), rest, replicate (length bad) Reject)"
    using readAnswer_skips [OF bad good] typed by simp
  note quiet = readAnswer_quiet [OF ans]
  obtain st w' a where flow: "retryFlow ipAddress sshUser port w = (st, w', a)"
    by (cases "retryFlow ipAddress sshUser port w") auto
  from flow have "Log FailedToStart \<in> set a \<and> prompts a = 1 \<and>
       spawned a = [port, Number (parseInt (filterInput good))] \<and>
       resolved a = [False, fst (onEvent q)] \<and>
       st = (if fst (onEvent q) then Succeeded else GaveUp) \<and> procs w' = qs"
  proof (cases rule: retryFlow_cases)
    case (gave_up q1 q1' qs1 x ls a1)
    with ps ans quiet show ?thesis
      by (simp add: spawned_append resolved_append prompts_append onEvent_acts)
  next
    case (retry_success q1 q1' qs1 x ls a1 a2)
    with ps ans quiet save_fields [OF retry_success(6)] show ?thesis
      by (simp add: spawned_append resolved_append prompts_append onEvent_acts)
  qed (use ps ans in simp_all)
  with first flow show ?thesis by blast
qed

theorem launch_error_treated_as_failure_witness:
  "fst (trySSHConnection ''203.0.113.7'' ''root'' (Number (Some 22))
        (no_file [SpawnError, SpawnError, Close (Some 0)] [''0'', ''2222''])) = Some False \<and>
   (\<exists>st w' acts. retryFlow ''203.0.113.7'' ''root'' (Number (Some 22))
        (no_file [SpawnError, SpawnError, Close (Some 0)] [''0'', ''2222'']) = (st, w', acts) \<and>
       Log FailedToStart \<in> set acts \<and> prompts acts = 1 \<and>
       spawned acts = [Number (Some 22), Number (Some 2222)] \<and>
       resolved acts = [False, False] \<and> st = GaveUp \<and> procs w' = [Close (Some 0)])"
proof -
  let ?w = "no_file [SpawnError, SpawnError, Close (Some 0)] [''0'', ''2222'']"
  have ps: "procs ?w = SpawnError # SpawnError # [Close (Some 0)]" by simp
  have typed: "lines ?w = [''0''] @ ''2222'' # []" by simp
  have bad: "\<forall>l\<in>set [''0'']. \<not> validate (filterInput l)"
    by (simp add: validate_def filterInput_def parse_defs)
  have good: "validate (filterInput ''2222'')"
    by (simp add: validate_def filterInput_def parse_defs)
  have val: "parseInt (filterInput ''2222'') = Some 2222"
    by (simp add: filterInput_def parse_defs)
  from launch_error_treated_as_failure [OF ps typed bad good, of "''203.0.113.7''" "''root''"
      "Number (Some 22)"] val
  show ?thesis by auto
qed

text \<open>
  Claim C5. Whenever a run of \<open>sshIntoServer\<close> writes the port file, the write comes
  directly after an attempt on some port \<open>p\<close> was spawned and resolved to \<open>true\<close> (only
  what the store's own reload logs lies between them), nothing was written before, \<open>p\<close> is an
  integer with \<open>0 < p < 65536\<close>, and what is written is the loaded store with the host's
  entry set to \<open>p\<close>: the entries of other hosts are written back as they were loaded.
\<close>

theorem write_only_after_success:
  assumes run: "sshIntoServer ipAddress sshUser w = Inr (st, w', acts)"
    and wr: "Write c \<in> set acts"
  shows "\<exists>p pre. 0 < p \<and> p < 65536 \<and>
     acts = pre @ [Spawn (Number (Some p)) sshUser ipAddress, Log SessionEnded, Resolve True]
              @ snd (loadPortConfigs w) @ [Write c, Log (PortSaved (Some p) ipAddress)] \<and>
     written pre = [] \<and>
     setProp (fst (loadPortConfigs w)) ipAddress (JNum p) = Inr c"
proof -
  from run obtain port a where
    flow: "retryFlow ipAddress sshUser port w = (st, w', a)" and
    acts: "acts = snd (loadPortConfigs w) @ a"
    by (rule sshIntoServer_Inr)
  from wr have wr': "c \<in> set (written acts)" by (simp add: Write_in_written)
  from flow show ?thesis
  proof (cases rule: retryFlow_cases)
    case session_open
    with wr' acts show ?thesis by (simp add: written_append load_acts)
  next
    case (first_success q qs)
    with wr' acts show ?thesis by (simp add: written_append load_acts onEvent_acts)
  next
    case (no_answer q qs ls a1)
    with wr' acts readAnswer_quiet [OF no_answer(3)] show ?thesis
      by (simp add: written_append load_acts onEvent_acts)
  next
    case (retry_open q x ls a1)
    with wr' acts readAnswer_quiet [OF retry_open(3)] show ?thesis
      by (simp add: written_append load_acts onEvent_acts)
  next
    case (gave_up q q' qs x ls a1)
    with wr' acts readAnswer_quiet [OF gave_up(3)] show ?thesis
      by (simp add: written_append load_acts onEvent_acts)
  next
    case (retry_success q q' qs x ls a1 a2)
    from readAnswer_valid [OF retry_success(3)] obtain p where
      p: "parseInt x = Some p" "0 < p" "p < 65536"
      by (auto simp: validate_iff)
    note quiet = readAnswer_quiet [OF retry_success(3)]
    note ended = onEvent_success [OF retry_success(4)]
    let ?pre = "snd (loadPortConfigs w) @ started ipAddress sshUser port @ snd (onEvent q) @
        [Log ConnectionFailed, Prompt] @ a1 @
        [Log (AttemptingSSH sshUser ipAddress (Number (Some p))), Log DisconnectHint]"
    have pre: "written ?pre = []"
      using quiet by (simp add: written_append load_acts onEvent_acts)
    from retry_success(6) show ?thesis
    proof (cases rule: save_cases)
      case (wrote c')
      have "written acts = [c']"
        using acts retry_success(7) wrote(4) quiet
        by (simp add: written_append load_acts onEvent_acts load_scripts)
      with wr' have c: "c' = c" by simp
      have shape: "acts = ?pre @
          [Spawn (Number (Some p)) sshUser ipAddress, Log SessionEnded, Resolve True] @
          snd (loadPortConfigs w) @ [Write c, Log (PortSaved (Some p) ipAddress)]"
        using acts retry_success(7) wrote(4) p(1) ended c by (simp add: load_scripts)
      have "setProp (fst (loadPortConfigs w)) ipAddress (JNum p) = Inr c"
        using wrote(1) p(1) c by (simp add: load_scripts)
      with p(2,3) shape pre show ?thesis by blast
    next
      case failed
      have "written acts = []"
        using acts retry_success(7) failed(2) quiet
        by (simp add: written_append load_acts onEvent_acts load_scripts)
      with wr' show ?thesis by simp
    qed
  qed
qed

theorem write_only_after_success_witness:
  "sshIntoServer ''203.0.113.7'' ''root''
       (no_file [Close (Some 255), Close (Some 0)] [''2200'']) =
     Inr (Succeeded,
       \<lparr>present = True, readable = True, writable = True,
        content = Some (JObj [''203.0.113.7'' \<mapsto> JNum 2200]), procs = [], lines = []\<rparr>,
       started ''203.0.113.7'' ''root'' (Number (Some 22)) @
       [Resolve False, Log ConnectionFailed, Prompt] @
       started ''203.0.113.7'' ''root'' (Number (Some 2200)) @
       [Log SessionEnded, Resolve True, Write (JObj [''203.0.113.7'' \<mapsto> JNum 2200]),
        Log (PortSaved (Some 2200) ''203.0.113.7'')]) \<and>
   (\<exists>p pre. 0 < p \<and> p < 65536 \<and>
     started ''203.0.113.7'' ''root'' (Number (Some 22)) @
       [Resolve False, Log ConnectionFailed, Prompt] @
       started ''203.0.113.7'' ''root'' (Number (Some 2200)) @
       [Log SessionEnded, Resolve True, Write (JObj [''203.0.113.7'' \<mapsto> JNum 2200]),
        Log (PortSaved (Some 2200) ''203.0.113.7'')] =
     pre @ [Spawn (Number (Some p)) ''root'' ''203.0.113.7'', Log SessionEnded, Resolve True]
              @ snd (loadPortConfigs (no_file [Close (Some 255), Close (Some 0)] [''2200'']))
              @ [Write (JObj [''203.0.113.7'' \<mapsto> JNum 2200]),
                 Log (PortSaved (Some p) ''203.0.113.7'')] \<and>
     written pre = [] \<and>
     setProp (fst (loadPortConfigs (no_file [Close (Some 255), Close (Some 0)] [''2200''])))
        ''203.0.113.7'' (JNum p) = Inr (JObj [''203.0.113.7'' \<mapsto> JNum 2200]))"
proof -
  have run: "sshIntoServer ''203.0.113.7'' ''root''
       (no_file [Close (Some 255), Close (Some 0)] [''2200'']) =
     Inr (Succeeded,
       \<lparr>present = True, readable = True, writable = True,
        content = Some (JObj [''203.0.113.7'' \<mapsto> JNum 2200]), procs = [], lines = []\<rparr>,
       started ''203.0.113.7'' ''root'' (Number (Some 22)) @
       [Resolve False, Log ConnectionFailed, Prompt] @
       started ''203.0.113.7'' ''root'' (Number (Some 2200)) @
       [Log SessionEnded, Resolve True, Write (JObj [''203.0.113.7'' \<mapsto> JNum 2200]),
        Log (PortSaved (Some 2200) ''203.0.113.7'')])"
    by (simp add: run_defs)
  have mem: "Write (JObj [''203.0.113.7'' \<mapsto> JNum 2200]) \<in> set (
       started ''203.0.113.7'' ''root'' (Number (Some 22)) @
       [Resolve False, Log ConnectionFailed, Prompt] @
       started ''203.0.113.7'' ''root'' (Number (Some 2200)) @
       [Log SessionEnded, Resolve True, Write (JObj [''203.0.113.7'' \<mapsto> JNum 2200]),
        Log (PortSaved (Some 2200) ''203.0.113.7'')])"
    by simp
  from write_only_after_success [OF run mem] run show ?thesis by blast
qed

text \<open>
  Claim C6 says that a save followed by a load yields the saved port, for every prior
  store state. It fails when the file cannot be written: the save logs the error, leaves
  the store as it was, and the load has no entry for the host.
\<close>

theorem save_lost_when_write_fails:
  "savePortConfig ''203.0.113.7'' (Some 2200) (file_with (JObj Map.empty) False [] []) =
     (file_with (JObj Map.empty) False [] [], [Log ErrorSaving]) \<and>
   getProp (fst (loadPortConfigs (fst (savePortConfig ''203.0.113.7'' (Some 2200)
      (file_with (JObj Map.empty) False [] []))))) ''203.0.113.7'' = Inr None"
  by (simp add: savePortConfig_def loadPortConfigs_def)

text \<open>
  Claim C6, amended. For every host \<open>H\<close>, integer port \<open>P\<close> and prior state in which the
  file can be read and written and \<open>loadPortConfigs\<close> yields a mapping (the file is absent,
  is not JSON, or holds a JSON object): saving \<open>P\<close> for \<open>H\<close> and loading again yields
  \<open>P\<close> for \<open>H\<close>, and the entry of every other host is as it was loaded before. When
  the file cannot be written, the save logs the error and leaves the store unchanged.
\<close>

theorem save_then_load:
  "(readable w \<and> writable w \<and> fst (loadPortConfigs w) = JObj m \<longrightarrow>
      getProp (fst (loadPortConfigs (fst (savePortConfig H (Some P) w)))) H =
        Inr (Some (JNum P)) \<and>
      (\<forall>H'. H' \<noteq> H \<longrightarrow>
         getProp (fst (loadPortConfigs (fst (savePortConfig H (Some P) w)))) H' =
         getProp (fst (loadPortConfigs w)) H')) \<and>
   (\<not> writable w \<longrightarrow>
      savePortConfig H (Some P) w = (w, snd (loadPortConfigs w) @ [Log ErrorSaving]))"
proof -
  have a: "getProp (fst (loadPortConfigs (fst (savePortConfig H (Some P) w)))) H =
        Inr (Some (JNum P)) \<and>
      (\<forall>H'. H' \<noteq> H \<longrightarrow>
         getProp (fst (loadPortConfigs (fst (savePortConfig H (Some P) w)))) H' =
         getProp (fst (loadPortConfigs w)) H')"
    if rd: "readable w" and wr: "writable w" and obj: "fst (loadPortConfigs w) = JObj m"
  proof -
    obtain a0 where ld: "loadPortConfigs w = (JObj m, a0)"
      using obj by (cases "loadPortConfigs w") simp
    have sv: "fst (savePortConfig H (Some P) w) =
        w\<lparr>present := True, content := Some (JObj (m(H \<mapsto> JNum P)))\<rparr>"
      using ld wr by (simp add: savePortConfig_def)
    have "loadPortConfigs (w\<lparr>present := True, content := Some (JObj (m(H \<mapsto> JNum P)))\<rparr>) =
        (JObj (m(H \<mapsto> JNum P)), [])"
      using rd by (simp add: loadPortConfigs_def)
    with sv obj show ?thesis by simp
  qed
  have b: "savePortConfig H (Some P) w = (w, snd (loadPortConfigs w) @ [Log ErrorSaving])"
    if "\<not> writable w"
    using that by (simp add: savePortConfig_def split: prod.splits sum.splits)
  from a b show ?thesis by blast
qed

theorem save_then_load_witness:
  "getProp (fst (loadPortConfigs (fst (savePortConfig ''203.0.113.7'' (Some 2200)
       (file_with (JObj [''198.51.100.4'' \<mapsto> JNum 2022]) True [] []))))) ''203.0.113.7'' =
     Inr (Some (JNum 2200)) \<and>
   getProp (fst (loadPortConfigs (fst (savePortConfig ''203.0.113.7'' (Some 2200)
       (file_with (JObj [''198.51.100.4'' \<mapsto> JNum 2022]) True [] []))))) ''198.51.100.4'' =
     Inr (Some (JNum 2022)) \<and>
   savePortConfig ''203.0.113.7'' (Some 2200)
       (file_with (JObj [''198.51.100.4'' \<mapsto> JNum 2022]) False [] []) =
     (file_with (JObj [''198.51.100.4'' \<mapsto> JNum 2022]) False [] [], [Log ErrorSaving])"
proof -
  let ?m = "[''198.51.100.4'' \<mapsto> JNum 2022]"
  have ld: "fst (loadPortConfigs (file_with (JObj ?m) True [] [])) = JObj ?m"
    by (simp add: loadPortConfigs_def)
  have ne: "''198.51.100.4'' \<noteq> ''203.0.113.7''" by simp
  have ld': "loadPortConfigs (file_with (JObj ?m) False [] []) = (JObj ?m, [])"
    by (simp add: loadPortConfigs_def)
  from save_then_load [of "file_with (JObj ?m) True [] []" ?m "''203.0.113.7''" 2200]
    save_then_load [of "file_with (JObj ?m) False [] []" ?m "''203.0.113.7''" 2200] ld ne ld'
  show ?thesis by simp
qed

text \<open>
  Claim C7. The validator of the port prompt rejects \<open>0\<close>, \<open>65536\<close>, \<open>-1\<close> and
  \<open>abc\<close> and accepts \<open>22\<close>, \<open>2222\<close> and \<open>65535\<close>; it accepts an input exactly when
  \<open>parseInt\<close> gives an integer strictly between 0 and 65536; and the prompt goes through
  any number of rejected lines, each one answered by a rejection, until the first accepted
  one, whose \<open>parseInt\<close> value it returns. (An empty line stands for the prompt's
  default answer, \<open>22\<close>.)
\<close>

theorem port_prompt_validation:
  assumes "\<forall>l\<in>set bad. \<not> validate (filterInput l)" and "validate (filterInput good)"
  shows "\<not> validate ''0'' \<and> \<not> validate ''65536'' \<and> \<not> validate ''-1'' \<and> \<not> validate ''abc'' \<and>
    validate ''22'' \<and> validate ''2222'' \<and> validate ''65535'' \<and>
    validate input = (\<exists>p. parseInt input = Some p \<and> 0 < p \<and> p < 65536) \<and>
    promptForPort (w\<lparr>lines := bad @ good # rest\<rparr>) =
      (Some (parseInt (filterInput good)), w\<lparr>lines := rest\<rparr>,
       Prompt # replicate (length bad) Reject)"
proof -
  have ex: "\<not> validate ''0'' \<and> \<not> validate ''65536'' \<and> \<not> validate ''-1'' \<and> \<not> validate ''abc'' \<and>
    validate ''22'' \<and> validate ''2222'' \<and> validate ''65535''"
    by (simp add: validate_def parse_defs)
  have loop: "promptForPort (w\<lparr>lines := bad @ good # rest\<rparr>) =
      (Some (parseInt (filterInput good)), w\<lparr>lines := rest\<rparr>,
       Prompt # replicate (length bad) Reject)"
    using readAnswer_skips [OF assms, of rest] by (simp add: promptForPort_def)
  from ex loop validate_iff [of input] show ?thesis by blast
qed

theorem port_prompt_validation_witness:
  "promptForPort \<lparr>present = False, readable = True, writable = True, content = None,
      procs = [], lines = [''0'', ''65536'', ''-1'', ''abc'', ''2222'', ''22'']\<rparr> =
     (Some (Some 2222),
      \<lparr>present = False, readable = True, writable = True, content = None,
      procs = [], lines = [''22'']\<rparr>,
      [Prompt, Reject, Reject, Reject, Reject])"
proof -
  have bad: "\<forall>l\<in>set [''0'', ''65536'', ''-1'', ''abc'']. \<not> validate (filterInput l)"
    by (simp add: validate_def parse_defs filterInput_def)
  have good: "validate (filterInput ''2222'')"
    by (simp add: validate_def parse_defs filterInput_def)
  have val: "parseInt (filterInput ''2222'') = Some 2222"
    by (simp add: parse_defs filterInput_def)
  show ?thesis
    using port_prompt_validation [OF bad good, where input = "''2222''"
        and w = "\<lparr>present = False, readable = True, writable = True, content = None,
          procs = [], lines = []\<rparr>" and rest = "[''22'']"] val
    by simp
qed

text \<open>
  Claim C8 says that \<open>loadPortConfigs\<close> always yields a mapping. On a readable port file
  whose text is the JSON value \<open>null\<close> it returns \<open>null\<close>, with nothing logged.
  (\<open>loadPortConfigs_fails_soft\<close> above has the rest of the claim: the empty mapping for an
  absent file, and the logged error with the empty mapping for a file that cannot be read
  or parsed.)
\<close>

theorem loadPortConfigs_returns_null:
  "loadPortConfigs (file_with JNull True [] []) = (JNull, [])"
  by (simp add: loadPortConfigs_def)

text \<open>
  Claim C9 says that \<open>sshIntoServer\<close> never throws. On a readable port file whose text is
  the JSON value \<open>null\<close> it throws a \<open>TypeError\<close> at \<open>portConfigs[ipAddress]\<close>, before
  any attempt. (By \<open>sshIntoServer_returns\<close> above, the function returns whenever the loaded
  store is not \<open>null\<close>.)
\<close>

theorem sshIntoServer_throws_on_null_store:
  "sshIntoServer ''203.0.113.7'' ''root'' (file_with JNull True [] []) = Inl TypeError"
  by (simp add: sshIntoServer_def loadPortConfigs_def startingPort_def)

text \<open>
  Claim C10. An input whose \<open>parseInt\<close> value \<open>p\<close> lies strictly between 0 and 65536 is
  accepted by the validator, whatever follows the digits; \<open>promptForPort\<close> returns \<open>p\<close>,
  and the retry attempt is spawned on \<open>p\<close>. \<open>parseInt\<close> reads \<open>22abc\<close> as 22 and
  \<open>8080.9\<close> as 8080, and in general ignores whatever follows a run of decimal digits
  (unless the run is the single digit \<open>0\<close> followed by \<open>x\<close> or \<open>X\<close>, which starts a
  hexadecimal number).
\<close>

theorem parseInt_value_is_the_port:
  assumes p: "parseInt s = Some p" "0 < p" "p < 65536"
    and ps: "procs w = q # q' # qs" and f: "\<not> fst (onEvent q)"
    and typed: "lines w = s # rest"
  shows "validate s \<and>
    promptForPort w = (Some (Some p), w\<lparr>lines := rest\<rparr>, [Prompt]) \<and>
    (\<exists>st w' acts. retryFlow ipAddress sshUser port w = (st, w', acts) \<and>
       spawned acts = [port, Number (Some p)]) \<and>
    parseInt ''22abc'' = Some 22 \<and> parseInt ''8080.9'' = Some 8080 \<and>
    validate ''22abc'' \<and> validate ''8080.9'' \<and>
    (ds \<noteq> [] \<and> (\<forall>c\<in>set ds. \<exists>d<10. digitVal c = Some d) \<and>
     (\<forall>d<10. digitVal c' \<noteq> Some d) \<and>
     \<not> (ds = ''0'' \<and> (c' = CHR ''x'' \<or> c' = CHR ''X'')) \<longrightarrow>
       parseInt (ds @ c' # t) = parseInt ds)"
proof -
  have v: "validate s" using p by (simp add: validate_iff)
  have fi: "filterInput s = s" using p(1) by (rule filterInput_parsed)
  have ans: "readAnswer (lines w) = (Some s, rest, [])"
    using typed v fi by simp
  have pr: "promptForPort w = (Some (Some p), w\<lparr>lines := rest\<rparr>, [Prompt])"
    using ans p(1) by (simp add: promptForPort_def)
  obtain st w' a where flow: "retryFlow ipAddress sshUser port w = (st, w', a)"
    by (cases "retryFlow ipAddress sshUser port w") auto
  from flow have "spawned a = [port, Number (Some p)]"
  proof (cases rule: retryFlow_cases)
    case (gave_up q1 q1' qs1 x ls a1)
    with ps ans p(1) show ?thesis
      by (simp add: spawned_append onEvent_acts)
  next
    case (retry_success q1 q1' qs1 x ls a1 a2)
    with ps ans p(1) save_fields [OF retry_success(6)] show ?thesis
      by (simp add: spawned_append onEvent_acts)
  qed (use ps ans f in simp_all)
  with flow have fl: "\<exists>st w' acts. retryFlow ipAddress sshUser port w = (st, w', acts) \<and>
       spawned acts = [port, Number (Some p)]" by blast
  have ex: "parseInt ''22abc'' = Some 22 \<and> parseInt ''8080.9'' = Some 8080 \<and>
    validate ''22abc'' \<and> validate ''8080.9''"
    by (simp add: validate_def parse_defs)
  from v pr fl ex parseInt_ignores_rest [of ds c' t] show ?thesis by blast
qed

theorem parseInt_value_is_the_port_witness:
  "parseInt ''22abc'' = Some 22 \<and> validate ''22abc'' \<and>
   promptForPort (no_file [Close (Some 255), Close (Some 0)] [''22abc'']) =
     (Some (Some 22), no_file [Close (Some 255), Close (Some 0)] [], [Prompt]) \<and>
   (\<exists>st w' acts. retryFlow ''203.0.113.7'' ''root'' (Number (Some 2200))
        (no_file [Close (Some 255), Close (Some 0)] [''22abc'']) = (st, w', acts) \<and>
       spawned acts = [Number (Some 2200), Number (Some 22)]) \<and>
   parseInt (''8080'' @ CHR ''.'' # ''9'') = parseInt ''8080''"
proof -
  let ?w = "no_file [Close (Some 255), Close (Some 0)] [''22abc'']"
  have dec: "''8080'' \<noteq> [] \<and> (\<forall>c\<in>set ''8080''. \<exists>d<10. digitVal c = Some d) \<and>
     (\<forall>d<10. digitVal CHR ''.'' \<noteq> Some d) \<and>
     \<not> (''8080'' = ''0'' \<and> (CHR ''.'' = CHR ''x'' \<or> CHR ''.'' = CHR ''X''))"
    by (simp add: digitVal_def)
  have p: "parseInt ''22abc'' = Some 22" "(0::int) < 22" "(22::int) < 65536"
    by (simp_all add: parse_defs)
  have ps: "procs ?w = Close (Some 255) # Close (Some 0) # []" by simp
  have f: "\<not> fst (onEvent (Close (Some 255)))" by simp
  have typed: "lines ?w = ''22abc'' # []" by simp
  from parseInt_value_is_the_port [OF p ps f typed, where ipAddress = "''203.0.113.7''"
      and sshUser = "''root''" and port = "Number (Some 2200)" and ds = "''8080''"
      and c' = "CHR ''.''" and t = "''9''"] p(1) dec
  show ?thesis by (simp add: parse_defs)
qed

end
